theory Spec2Isabelle
  imports Main "HOL-Library.Finite_Map"
begin

section \<open>Data model of \<open>src/main.py\<close>\<close>

text \<open>
  A Python value that is either \<open>None\<close> or a \<open>str\<close>: the fields of a \<open>GeoEntry\<close>,
  and the label of a \<open>GeoNode\<close> (\<open>label: str = None\<close>), which is also the key under which
  a node is stored in its parent's \<open>children\<close> dict. Characters are code points below 256.
\<close>

type_synonym opt_str = "string option"

text \<open>
  The exceptions that the code can raise: \<open>ValueError\<close> is raised explicitly by
  \<open>add_child\<close>, \<open>KeyError\<close> by a dict subscript on a missing key, and \<open>AttributeError\<close>
  by reading \<open>.children\<close> of \<open>None\<close>.
\<close>

datatype error = ValueError | KeyError | AttributeError

text \<open>All three are subclasses of Python's \<open>Exception\<close>, which \<open>except Exception\<close> catches.\<close>

fun is_Exception :: "error \<Rightarrow> bool" where
  "is_Exception ValueError = True"
| "is_Exception KeyError = True"
| "is_Exception AttributeError = True"

subsection \<open>GeoEntry\<close>

record GeoEntry =
  region :: opt_str
  postcode :: opt_str
  city :: opt_str
  street :: opt_str
  number :: opt_str
  unit :: opt_str

text \<open>
  \<open>str.isspace\<close> of CPython, on the code points below 256: the ASCII controls 9 to 13
  and 28 to 31, the space, NEL (133) and the no-break space (160).
\<close>

definition isspace :: "char \<Rightarrow> bool" where
  "isspace c = (let n = (of_char c :: nat) in
     (9 \<le> n \<and> n \<le> 13) \<or> (28 \<le> n \<and> n \<le> 32) \<or> n = 133 \<or> n = 160)"

text \<open>\<open>str.strip()\<close> without argument: leading and trailing whitespace removed.\<close>

definition strip :: "string \<Rightarrow> string" where
  "strip s = rev (dropWhile isspace (rev (dropWhile isspace s)))"

text \<open>\<open>key in d\<close> and \<open>d[key]\<close> on a dict; the subscript raises \<open>KeyError\<close> on a missing key.\<close>

definition dict_contains :: "('k \<rightharpoonup> 'v) \<Rightarrow> 'k \<Rightarrow> bool" where
  "dict_contains d k = (d k \<noteq> None)"

definition dict_getitem :: "('k \<rightharpoonup> 'v) \<Rightarrow> 'k \<Rightarrow> error + 'v" where
  "dict_getitem d k = (case d k of None \<Rightarrow> Inl KeyError | Some v \<Rightarrow> Inr v)"

text \<open>
  \<open>GeoEntry.get_entry\<close>. The truth value of a \<open>str\<close> is that it is not empty.
\<close>

definition get_entry :: "(string \<rightharpoonup> string) \<Rightarrow> string \<Rightarrow> error + opt_str" where
  "get_entry target_dict target_entry =
     (if dict_contains target_dict target_entry then
        (case dict_getitem target_dict target_entry of
           Inl err \<Rightarrow> Inl err
         | Inr target_value \<Rightarrow>
             (let target_value = strip target_value in
              if target_value \<noteq> [] then Inr (Some target_value) else Inr None))
      else Inr None)"

text \<open>\<open>GeoEntry.from_properties\<close>: six lookups in the order of the source, then the constructor.\<close>

definition from_properties :: "(string \<rightharpoonup> string) \<Rightarrow> error + GeoEntry" where
  "from_properties properties =
     (case get_entry properties ''region'' of Inl err \<Rightarrow> Inl err | Inr region' \<Rightarrow>
      case get_entry properties ''postcode'' of Inl err \<Rightarrow> Inl err | Inr postcode' \<Rightarrow>
      case get_entry properties ''city'' of Inl err \<Rightarrow> Inl err | Inr city' \<Rightarrow>
      case get_entry properties ''street'' of Inl err \<Rightarrow> Inl err | Inr street' \<Rightarrow>
      case get_entry properties ''number'' of Inl err \<Rightarrow> Inl err | Inr number' \<Rightarrow>
      case get_entry properties ''unit'' of Inl err \<Rightarrow> Inl err | Inr unit' \<Rightarrow>
        Inr \<lparr>region = region', postcode = postcode', city = city', street = street',
             number = number', unit = unit'\<rparr>)"

text \<open>\<open>GeoEntry.is_valid\<close>.\<close>

definition is_valid :: "GeoEntry \<Rightarrow> bool" where
  "is_valid self =
     (region self \<noteq> None \<and> postcode self \<noteq> None \<and> city self \<noteq> None \<and> street self \<noteq> None)"

subsection \<open>GeoNode\<close>

text \<open>The enum \<open>GeoNode.NodeType\<close>, its \<open>.value\<close>, and its members in iteration order.\<close>

datatype NodeType = PLANET | COUNTRY | REGION | CITY | POSTCODE | STREET | NUMBER | UNIT

fun NodeType_value :: "NodeType \<Rightarrow> nat" where
  "NodeType_value PLANET = 0"
| "NodeType_value COUNTRY = 1"
| "NodeType_value REGION = 2"
| "NodeType_value CITY = 3"
| "NodeType_value POSTCODE = 4"
| "NodeType_value STREET = 5"
| "NodeType_value NUMBER = 6"
| "NodeType_value UNIT = 7"

definition NodeType_members :: "NodeType list" where
  "NodeType_members = [PLANET, COUNTRY, REGION, CITY, POSTCODE, STREET, NUMBER, UNIT]"

text \<open>
  A \<open>GeoNode\<close> owns its children through the dict \<open>children\<close>, keyed by label. The nodes
  of the program are created by \<open>_add_child\<close> and by the main script only, each stored
  under one parent, so the object graph below the root is a finite tree and is modelled
  as one: a dict is a finite map, which has one value per key and no order.
\<close>

datatype GeoNode =
  GeoNode (label: opt_str) (node_type: NodeType) (children: "(opt_str, GeoNode) fmap")

text \<open>
  A reference to a node inside the tree is the list of dict keys that leads to it from
  the root. \<open>node_at\<close> reads through such a reference; \<open>update_at\<close> is the mutation of
  the node it points to, seen from the root. A reference held by the code always points
  to a node of the tree (\<open>node_at\<close> is not \<open>None\<close>); \<open>update_at\<close> leaves the tree as it
  is on any other path.
\<close>

type_synonym node_ref = "opt_str list"

fun node_at :: "GeoNode \<Rightarrow> node_ref \<Rightarrow> GeoNode option" where
  "node_at n [] = Some n"
| "node_at n (k # ks) =
     (case fmlookup (children n) k of None \<Rightarrow> None | Some c \<Rightarrow> node_at c ks)"

fun update_at :: "node_ref \<Rightarrow> (GeoNode \<Rightarrow> GeoNode) \<Rightarrow> GeoNode \<Rightarrow> GeoNode" where
  "update_at [] f n = f n"
| "update_at (k # ks) f n =
     (case fmlookup (children n) k of
        None \<Rightarrow> n
      | Some c \<Rightarrow> GeoNode (label n) (node_type n) (fmupd k (update_at ks f c) (children n)))"

subsection \<open>GeoGraph\<close>

record GeoGraph =
  root :: GeoNode

text \<open>
  \<open>GeoGraph._add_child\<close> on the parent node: the pair of the parent after the call and
  the node returned. \<open>dict.get\<close> with default \<open>None\<close> is the lookup of the finite map.
\<close>

definition add_child_priv :: "GeoNode \<Rightarrow> opt_str \<Rightarrow> NodeType \<Rightarrow> GeoNode \<times> GeoNode" where
  "add_child_priv parent_node child_label child_type =
     (case fmlookup (children parent_node) child_label of
        Some child_node \<Rightarrow> (parent_node, child_node)
      | None \<Rightarrow>
          (let child_node = GeoNode child_label child_type fmempty in
           (GeoNode (label parent_node) (node_type parent_node)
              (fmupd (label child_node) child_node (children parent_node)),
            child_node)))"

text \<open>
  The state of one call of \<open>GeoGraph.add_child\<close>: the graph \<open>self\<close>, the local variable
  \<open>cur_node\<close> (\<open>None\<close>, or a reference into the tree of \<open>self\<close>), and two logs that
  the code does not have and that influence nothing: the enum members the loop body has
  been entered with, and the arguments of the calls of \<open>_add_child\<close> made so far.
\<close>

record walk_state =
  self :: GeoGraph
  cur_node :: "node_ref option"
  visited :: "NodeType list"
  calls :: "(opt_str \<times> NodeType) list"

text \<open>How a loop body ends: it falls through to the next iteration, returns, or raises.\<close>

datatype outcome = Continue | Returned | Raised error

text \<open>
  \<open>cur_node = self._add_child(parent_node=cur_node, child_label=..., child_type=...)\<close>:
  the parent is mutated in place, and the node returned is the child stored under
  \<open>child_label\<close> in the parent after the call.
\<close>

definition call_add_child :: "walk_state \<Rightarrow> opt_str \<Rightarrow> NodeType \<Rightarrow> outcome \<times> walk_state" where
  "call_add_child s child_label child_type =
     (case cur_node s of
        None \<Rightarrow> (Raised AttributeError, s)
      | Some p \<Rightarrow>
          (Continue,
           s\<lparr>self := \<lparr>root = update_at p (\<lambda>parent_node.
                         fst (add_child_priv parent_node child_label child_type)) (root (self s))\<rparr>,
             cur_node := Some (p @ [child_label]),
             calls := calls s @ [(child_label, child_type)]\<rparr>))"

definition country_label :: opt_str where
  "country_label = Some ''United States of America''"

text \<open>The body of the \<open>for\<close> loop of \<open>add_child\<close>, one branch of the \<open>if\<close>/\<open>elif\<close> chain per member.\<close>

definition loop_body :: "GeoEntry \<Rightarrow> NodeType \<Rightarrow> walk_state \<Rightarrow> outcome \<times> walk_state" where
  "loop_body child_entry nt s =
     (case nt of
        PLANET \<Rightarrow> (Continue, s\<lparr>cur_node := Some []\<rparr>)
      | COUNTRY \<Rightarrow>
          (case fmlookup (children (root (self s))) country_label of
             None \<Rightarrow> (Raised KeyError, s)
           | Some _ \<Rightarrow> (Continue, s\<lparr>cur_node := Some [country_label]\<rparr>))
      | REGION \<Rightarrow> call_add_child s (region child_entry) REGION
      | CITY \<Rightarrow> call_add_child s (city child_entry) CITY
      | POSTCODE \<Rightarrow> call_add_child s (postcode child_entry) POSTCODE
      | STREET \<Rightarrow> call_add_child s (street child_entry) STREET
      | NUMBER \<Rightarrow>
          (if number child_entry = None then (Returned, s)
           else call_add_child s (number child_entry) NUMBER)
      | UNIT \<Rightarrow>
          (if unit child_entry = None then (Returned, s)
           else call_add_child s (unit child_entry) UNIT))"

text \<open>
  The \<open>for\<close> loop over the members that are left; when they are exhausted the function
  returns.
\<close>

fun for_loop :: "GeoEntry \<Rightarrow> NodeType list \<Rightarrow> walk_state \<Rightarrow> outcome \<times> walk_state" where
  "for_loop child_entry [] s = (Returned, s)"
| "for_loop child_entry (nt # rest) s =
     (case loop_body child_entry nt (s\<lparr>visited := visited s @ [nt]\<rparr>) of
        (Continue, s') \<Rightarrow> for_loop child_entry rest s'
      | (Returned, s') \<Rightarrow> (Returned, s')
      | (Raised err, s') \<Rightarrow> (Raised err, s'))"

text \<open>
  \<open>GeoGraph.add_child\<close>: how the call ends, and the state it ends in (the graph after
  the call is \<open>self\<close> of that state, also when the call raises).
\<close>

definition add_child :: "GeoGraph \<Rightarrow> GeoEntry \<Rightarrow> outcome \<times> walk_state" where
  "add_child g child_entry =
     (let s = \<lparr>self = g, cur_node = None, visited = [], calls = []\<rparr> in
      if \<not> is_valid child_entry then (Raised ValueError, s)
      else for_loop child_entry NodeType_members s)"

definition graph_after :: "outcome \<times> walk_state \<Rightarrow> GeoGraph" where
  "graph_after r = self (snd r)"

text \<open>Calls of \<open>add_child\<close> one after the other on the same graph, whatever their outcome.\<close>

fun add_children :: "GeoGraph \<Rightarrow> GeoEntry list \<Rightarrow> GeoGraph" where
  "add_children g [] = g"
| "add_children g (e # es) = add_children (graph_after (add_child g e)) es"

subsection \<open>The main script\<close>

text \<open>
  Lines 127 to 129: the graph before the first line is read, a root \<open>Earth\<close> of type
  \<open>PLANET\<close> with the one child \<open>United States of America\<close> of type \<open>COUNTRY\<close>.
\<close>

definition initial_graph :: GeoGraph where
  "initial_graph =
     \<lparr>root = GeoNode (Some ''Earth'') PLANET
        (fmupd country_label (GeoNode country_label COUNTRY fmempty) fmempty)\<rparr>"

text \<open>
  The globals of the script. Reading the file and \<open>json.loads\<close> are outside the model:
  a line is given as what the loop uses of it, \<open>None\<close> when the parsed object has no key
  \<open>properties\<close>, otherwise the dict stored under that key.
\<close>

record main_state =
  g :: GeoGraph
  num_incomplete :: int
  num_processed :: int
  lines :: int

type_synonym json_entry = "(string \<rightharpoonup> string) option"

text \<open>
  The loop of lines 131 to 143. \<open>Inl\<close> is an exception that leaves the loop and ends the
  script; the \<open>try\<close> around \<open>add_child\<close> has the handler \<open>except Exception\<close>.
\<close>

fun main_loop :: "main_state \<Rightarrow> json_entry list \<Rightarrow> error + main_state" where
  "main_loop st [] = Inr st"
| "main_loop st (entry # rest) =
     (if lines st = 0 then Inr st
      else
        (let st1 = st\<lparr>lines := lines st - 1\<rparr> in
         case entry of
           None \<Rightarrow> main_loop st1 rest
         | Some properties \<Rightarrow>
             (case from_properties properties of
                Inl err \<Rightarrow> Inl err
              | Inr geo_entry \<Rightarrow>
                  (let st2 = st1\<lparr>num_processed := num_processed st1 + 1\<rparr> in
                   case add_child (g st2) geo_entry of
                     (Raised err, s) \<Rightarrow>
                       if is_Exception err
                       then main_loop (st2\<lparr>g := self s,
                                            num_incomplete := num_incomplete st2 + 1\<rparr>) rest
                       else Inl err
                   | (_, s) \<Rightarrow> main_loop (st2\<lparr>g := self s\<rparr>) rest))))"

definition main_script :: "json_entry list \<Rightarrow> error + main_state" where
  "main_script file_lines =
     main_loop \<lparr>g = initial_graph, num_incomplete = 0, num_processed = 0, lines = 100\<rparr>
       file_lines"

section \<open>Properties of trees\<close>

text \<open>
  Every child is exactly one level below its parent, in the whole tree.
\<close>

function levels_ok :: "GeoNode \<Rightarrow> bool" where
  "levels_ok (GeoNode l t cs) =
     (\<forall>c \<in> fmran' cs. NodeType_value (node_type c) = Suc (NodeType_value t) \<and> levels_ok c)"
  by pat_completeness auto
termination
proof (relation "measure size")
  show "wf (measure (size :: GeoNode \<Rightarrow> nat))" by simp
next
  fix l :: opt_str and t :: NodeType and cs :: "(opt_str, GeoNode) fmap" and c :: GeoNode
  assume "c \<in> fmran' cs"
  then obtain k where "fmlookup cs k = Some c"
    by (auto simp: fmlookup_ran'_iff)
  then have m: "(k, c) \<in> fset (fset_of_fmap cs)" by simp
  have "(\<lambda>(a, b). Suc (size b)) (k, c) \<le> (\<Sum>x\<in>fset (fset_of_fmap cs). (\<lambda>(a, b). Suc (size b)) x)"
    by (rule member_le_sum [OF m]) auto
  then show "(c, GeoNode l t cs) \<in> measure size"
    by (simp add: case_prod_beta)
qed

text \<open>The root has one child, stored under the country label, and it is a \<open>COUNTRY\<close>.\<close>

definition single_country_child :: "GeoNode \<Rightarrow> bool" where
  "single_country_child r =
     (fmdom (children r) = {|country_label|} \<and>
      (case fmlookup (children r) country_label of
         None \<Rightarrow> False
       | Some c \<Rightarrow> node_type c = COUNTRY))"

definition hierarchy_inv :: "GeoGraph \<Rightarrow> bool" where
  "hierarchy_inv gr =
     (node_type (root gr) = PLANET \<and> single_country_child (root gr) \<and> levels_ok (root gr))"

text \<open>
  Below the node, a chain of only children: the node has exactly one child, stored under
  the first label, with that label and the first type, and so on down the list.
  \<open>at_most_chain\<close> allows the chain to stop early.
\<close>

fun single_chain :: "GeoNode \<Rightarrow> (opt_str \<times> NodeType) list \<Rightarrow> bool" where
  "single_chain n [] = True"
| "single_chain n ((l, t) # rest) =
     (fmdom (children n) = {|l|} \<and>
      (case fmlookup (children n) l of
         None \<Rightarrow> False
       | Some c \<Rightarrow> label c = l \<and> node_type c = t \<and> single_chain c rest))"

fun at_most_chain :: "GeoNode \<Rightarrow> (opt_str \<times> NodeType) list \<Rightarrow> bool" where
  "at_most_chain n [] = True"
| "at_most_chain n ((l, t) # rest) =
     (fmdom (children n) |\<subseteq>| {|l|} \<and>
      (case fmlookup (children n) l of
         None \<Rightarrow> True
       | Some c \<Rightarrow> label c = l \<and> node_type c = t \<and> at_most_chain c rest))"

text \<open>Each type in the list is one level below the one before, starting below level \<open>v\<close>.\<close>

fun consecutive :: "nat \<Rightarrow> NodeType list \<Rightarrow> bool" where
  "consecutive v [] = True"
| "consecutive v (t # ts) = (NodeType_value t = Suc v \<and> consecutive (Suc v) ts)"

section \<open>The walk of \<open>add_child\<close> in closed form\<close>

text \<open>
  The child stored under a label, or the node that \<open>_add_child\<close> creates when there is
  none.
\<close>

definition child_or_new :: "GeoNode \<Rightarrow> opt_str \<Rightarrow> NodeType \<Rightarrow> GeoNode" where
  "child_or_new n l t =
     (case fmlookup (children n) l of Some c \<Rightarrow> c | None \<Rightarrow> GeoNode l t fmempty)"

text \<open>
  Descending along a list of labels, one type per level, creating what is missing. The
  lemma \<open>add_child_closed\<close> below shows that a call of \<open>add_child\<close> that passes the
  check and finds the country leaves this tree behind.
\<close>

fun ins :: "NodeType list \<Rightarrow> opt_str list \<Rightarrow> GeoNode \<Rightarrow> GeoNode" where
  "ins (t # ts) (l # ls) n =
     GeoNode (label n) (node_type n) (fmupd l (ins ts ls (child_or_new n l t)) (children n))"
| "ins _ _ n = n"

text \<open>The labels that a call passes to \<open>_add_child\<close>, in order.\<close>

definition entry_labels :: "GeoEntry \<Rightarrow> opt_str list" where
  "entry_labels e =
     [region e, city e, postcode e, street e] @
     (if number e = None then [] else number e # (if unit e = None then [] else [unit e]))"

section \<open>Example inputs\<close>

definition entry_100 :: GeoEntry where
  "entry_100 = \<lparr>region = Some ''CA'', postcode = Some ''92101'', city = Some ''San Diego'',
     street = Some ''Main St'', number = Some ''100'', unit = None\<rparr>"

definition entry_200 :: GeoEntry where
  "entry_200 = \<lparr>region = Some ''CA'', postcode = Some ''92101'', city = Some ''San Diego'',
     street = Some ''Main St'', number = Some ''200'', unit = Some ''B''\<rparr>"

definition entry_street_only :: GeoEntry where
  "entry_street_only = \<lparr>region = Some ''CA'', postcode = Some ''92101'',
     city = Some ''San Diego'', street = Some ''Main St'', number = None, unit = None\<rparr>"

definition entry_no_city :: GeoEntry where
  "entry_no_city = \<lparr>region = Some ''CA'', postcode = Some ''92101'', city = None,
     street = Some ''Main St'', number = Some ''100'', unit = None\<rparr>"

definition properties_100 :: "string \<rightharpoonup> string" where
  "properties_100 =
     [''region'' \<mapsto> ''CA'', ''postcode'' \<mapsto> '' 92101'', ''city'' \<mapsto> ''San Diego '',
      ''street'' \<mapsto> ''Main St'', ''number'' \<mapsto> ''100'', ''unit'' \<mapsto> ''  '']"

text \<open>A graph whose root was not given the country child.\<close>

definition unseeded_graph :: GeoGraph where
  "unseeded_graph = \<lparr>root = GeoNode (Some ''Earth'') PLANET fmempty\<rparr>"

section \<open>GeoEntry construction\<close>

lemma get_entry_eq:
  "get_entry d k =
     Inr (case d k of None \<Rightarrow> None
          | Some v \<Rightarrow> if strip v = [] then None else Some (strip v))"
  by (simp add: get_entry_def dict_contains_def dict_getitem_def Let_def split: option.splits)

text \<open>
  What \<open>strip\<close> returns has no whitespace at either end, so stripping it again
  changes nothing.
\<close>

lemma last_dropWhile: "dropWhile P xs \<noteq> [] \<Longrightarrow> last (dropWhile P xs) = last xs"
  by (induction xs) (auto split: if_splits)

lemma strip_trimmed:
  assumes "strip s \<noteq> []"
  shows "\<not> isspace (hd (strip s)) \<and> \<not> isspace (last (strip s))"
proof -
  let ?a = "dropWhile isspace s"
  let ?b = "dropWhile isspace (rev ?a)"
  from assms have b: "?b \<noteq> []" by (simp add: strip_def)
  have a: "?a \<noteq> []"
  proof
    assume "?a = []"
    with b show False by simp
  qed
  from b have "\<not> isspace (hd ?b)" by (rule hd_dropWhile)
  with b have l: "\<not> isspace (last (strip s))"
    by (simp add: strip_def last_rev)
  from b have "last ?b = last (rev ?a)" by (rule last_dropWhile)
  also from a have "\<dots> = hd ?a" by (simp add: last_rev)
  finally have "hd (strip s) = hd ?a" using b by (simp add: strip_def hd_rev)
  moreover from a have "\<not> isspace (hd ?a)" by (rule hd_dropWhile)
  ultimately show ?thesis using l by simp
qed

lemma strip_idem: "strip (strip s) = strip s"
proof (cases "strip s = []")
  case True
  show ?thesis unfolding True by (simp add: strip_def)
next
  case False
  from strip_trimmed [OF False] have h: "\<not> isspace (hd (strip s))"
    and l: "\<not> isspace (last (strip s))" by simp_all
  from False h have 1: "dropWhile isspace (strip s) = strip s"
    by (cases "strip s") simp_all
  from False l have 2: "dropWhile isspace (rev (strip s)) = rev (strip s)"
    by (cases "rev (strip s)") (auto simp: last_rev [symmetric] hd_rev)
  show ?thesis
    by (subst strip_def) (simp add: 1 2)
qed

text \<open>
  Claim C5. For every mapping from field name to raw string, \<open>from_properties\<close> never
  fails, and each of the six fields of the entry it returns is the stripped value when
  the key is in the mapping and the stripped value is not empty, and is \<open>None\<close>
  otherwise. The result is a function of the mapping alone.
\<close>

theorem from_properties_contract:
  "from_properties properties =
     Inr \<lparr>region = (case properties ''region'' of None \<Rightarrow> None
                    | Some v \<Rightarrow> if strip v = [] then None else Some (strip v)),
          postcode = (case properties ''postcode'' of None \<Rightarrow> None
                    | Some v \<Rightarrow> if strip v = [] then None else Some (strip v)),
          city = (case properties ''city'' of None \<Rightarrow> None
                    | Some v \<Rightarrow> if strip v = [] then None else Some (strip v)),
          street = (case properties ''street'' of None \<Rightarrow> None
                    | Some v \<Rightarrow> if strip v = [] then None else Some (strip v)),
          number = (case properties ''number'' of None \<Rightarrow> None
                    | Some v \<Rightarrow> if strip v = [] then None else Some (strip v)),
          unit = (case properties ''unit'' of None \<Rightarrow> None
                    | Some v \<Rightarrow> if strip v = [] then None else Some (strip v))\<rparr>"
  by (simp add: from_properties_def get_entry_eq)

theorem from_properties_contract_witness:
  "from_properties properties_100 = Inr entry_100"
  using from_properties_contract [of properties_100]
  by (simp add: properties_100_def entry_100_def strip_def isspace_def)

section \<open>References into the tree\<close>

lemma node_at_update_at: "node_at (update_at p f n) p = map_option f (node_at n p)"
  by (induction p arbitrary: n) (auto split: option.splits)

lemma node_at_append:
  "node_at n (p @ q) = (case node_at n p of None \<Rightarrow> None | Some m \<Rightarrow> node_at m q)"
  by (induction p arbitrary: n) (auto split: option.splits)

lemma add_child_priv_stored:
  "fmlookup (children (fst (add_child_priv parent l t))) l = Some (snd (add_child_priv parent l t))"
  by (simp add: add_child_priv_def Let_def split: option.splits)

text \<open>
  When \<open>cur_node\<close> refers to a node of the tree, the step
  \<open>cur_node = self._add_child(cur_node, l, t)\<close> replaces that node by what
  \<open>_add_child\<close> makes of it, and \<open>cur_node\<close> then refers to the node that
  \<open>_add_child\<close> returns: a reference never dangles.
\<close>

lemma call_add_child_ref:
  assumes "cur_node s = Some p" and "node_at (root (self s)) p = Some parent"
  shows "\<exists>s'. call_add_child s l t = (Continue, s') \<and>
              cur_node s' = Some (p @ [l]) \<and>
              node_at (root (self s')) p = Some (fst (add_child_priv parent l t)) \<and>
              node_at (root (self s')) (p @ [l]) = Some (snd (add_child_priv parent l t))"
  using assms
  by (simp add: call_add_child_def node_at_update_at node_at_append add_child_priv_stored)

section \<open>The closed form of a call\<close>

lemma fst_add_child_priv:
  "fst (add_child_priv n l t) =
     GeoNode (label n) (node_type n) (fmupd l (child_or_new n l t) (children n))"
  by (cases n)
     (auto simp: add_child_priv_def child_or_new_def Let_def split: option.splits
           intro!: fmap_ext)

lemma add_child_closed:
  assumes "is_valid e" and "fmlookup (children (root gr)) country_label = Some c"
  shows "add_child gr e =
     (Returned,
      \<lparr>self = \<lparr>root = ins (tl NodeType_members) (country_label # entry_labels e) (root gr)\<rparr>,
       cur_node = Some (country_label # entry_labels e),
       visited = (if number e = None then butlast NodeType_members else NodeType_members),
       calls = zip (entry_labels e) (drop 2 NodeType_members)\<rparr>)"
  using assms
  by (simp add: add_child_def NodeType_members_def loop_body_def call_add_child_def Let_def
      entry_labels_def fst_add_child_priv child_or_new_def)

lemma add_child_invalid:
  "\<not> is_valid e \<Longrightarrow>
   add_child gr e = (Raised ValueError, \<lparr>self = gr, cur_node = None, visited = [], calls = []\<rparr>)"
  by (simp add: add_child_def)

lemma add_child_no_country:
  assumes "is_valid e" and "fmlookup (children (root gr)) country_label = None"
  shows "add_child gr e =
     (Raised KeyError, \<lparr>self = gr, cur_node = Some [], visited = [PLANET, COUNTRY], calls = []\<rparr>)"
  using assms
  by (simp add: add_child_def NodeType_members_def loop_body_def)

text \<open>The graph after a call, in the three cases a call can be in.\<close>

lemma graph_after_add_child:
  "graph_after (add_child gr e) =
     (if is_valid e \<and> fmlookup (children (root gr)) country_label \<noteq> None
      then \<lparr>root = ins (tl NodeType_members) (country_label # entry_labels e) (root gr)\<rparr>
      else gr)"
proof (cases "is_valid e")
  case False
  then show ?thesis by (simp add: graph_after_def add_child_invalid)
next
  case True
  then show ?thesis
    by (cases "fmlookup (children (root gr)) country_label")
       (simp_all add: graph_after_def add_child_no_country add_child_closed)
qed

section \<open>Facts about the closed form\<close>

lemma label_ins [simp]: "label (ins ts ls n) = label n"
  by (induction ts ls n rule: ins.induct) simp_all

lemma node_type_ins [simp]: "node_type (ins ts ls n) = node_type n"
  by (induction ts ls n rule: ins.induct) simp_all

lemma fmdom_ins_Cons:
  "fmdom (children (ins (t # ts) (l # ls) n)) = finsert l (fmdom (children n))"
  by simp

lemma country_kept:
  "fmlookup (children (ins (tl NodeType_members) (country_label # ls) n)) country_label \<noteq> None"
  by (simp add: NodeType_members_def)

lemma ins_idem: "ins ts ls (ins ts ls n) = ins ts ls n"
  by (induction ts ls n rule: ins.induct) (simp_all add: child_or_new_def)

lemma ins_commute: "ins ts ls1 (ins ts ls2 n) = ins ts ls2 (ins ts ls1 n)"
proof (induction ts arbitrary: ls1 ls2 n)
  case Nil
  then show ?case by simp
next
  case (Cons t ts)
  show ?case
  proof (cases ls1)
    case Nil
    then show ?thesis by simp
  next
    case l1: (Cons l1 r1)
    show ?thesis
    proof (cases ls2)
      case Nil
      then show ?thesis by simp
    next
      case l2: (Cons l2 r2)
      show ?thesis
      proof (cases "l1 = l2")
        case True
        then show ?thesis
          using Cons.IH [of r1 r2] by (simp add: l1 l2 child_or_new_def)
      next
        case False
        then show ?thesis
          by (simp add: l1 l2 child_or_new_def fmupd_reorder_neq [of l1 l2])
      qed
    qed
  qed
qed

lemma node_at_ins_mono:
  "node_at n p = Some m \<Longrightarrow>
   \<exists>m'. node_at (ins ts ls n) p = Some m' \<and> label m' = label m \<and>
        node_type m' = node_type m \<and> fmdom (children m) |\<subseteq>| fmdom (children m')"
proof (induction ts ls n arbitrary: p m rule: ins.induct)
  case (1 t ts l ls n)
  show ?case
  proof (cases p)
    case Nil
    with "1.prems" show ?thesis by auto
  next
    case (Cons k ks)
    with "1.prems" obtain c where c: "fmlookup (children n) k = Some c" "node_at c ks = Some m"
      by (auto split: option.splits)
    show ?thesis
    proof (cases "k = l")
      case True
      with c have "child_or_new n l t = c" by (simp add: child_or_new_def)
      with "1.IH" [OF c(2) [folded this]] True Cons show ?thesis by simp
    next
      case False
      with c Cons show ?thesis by simp
    qed
  qed
qed simp_all

lemma node_at_ins_deep:
  "length ls < length p \<Longrightarrow> node_at (ins ts ls n) p = node_at n p"
proof (induction ts ls n arbitrary: p rule: ins.induct)
  case (1 t ts l ls n)
  then obtain k ks where p: "p = k # ks" and len: "length ls < length ks"
    by (cases p) auto
  show ?case
  proof (cases "k = l")
    case True
    show ?thesis
    proof (cases "fmlookup (children n) l")
      case None
      with len True p "1.IH" [OF len] show ?thesis
        by (cases ks) (simp_all add: child_or_new_def)
    next
      case (Some c)
      with len True p "1.IH" [OF len] show ?thesis
        by (simp add: child_or_new_def)
    qed
  next
    case False
    with p show ?thesis by simp
  qed
qed simp_all

lemma node_at_leaf: "ks \<noteq> [] \<Longrightarrow> node_at (GeoNode l t fmempty) ks = None"
  by (cases ks) simp_all

lemma node_at_ins_end:
  "ls \<noteq> [] \<Longrightarrow> length ls \<le> length ts \<Longrightarrow>
   node_at (ins ts ls n) ls =
     Some (case node_at n ls of Some m \<Rightarrow> m
           | None \<Rightarrow> GeoNode (last ls) (ts ! (length ls - 1)) fmempty)"
proof (induction ts ls n rule: ins.induct)
  case (1 t ts l ls n)
  show ?case
  proof (cases "ls = []")
    case True
    then show ?thesis by (simp add: child_or_new_def split: option.splits)
  next
    case False
    from "1.prems" have len: "length ls \<le> length ts" by simp
    from False have idx: "(t # ts) ! (length (l # ls) - 1) = ts ! (length ls - 1)"
      by (cases ls) simp_all
    have "node_at (ins (t # ts) (l # ls) n) (l # ls) = node_at (ins ts ls (child_or_new n l t)) ls"
      by simp
    also have "\<dots> = Some (case node_at (child_or_new n l t) ls of Some m \<Rightarrow> m
           | None \<Rightarrow> GeoNode (last ls) (ts ! (length ls - 1)) fmempty)"
      by (rule "1.IH" [OF False len])
    also have "node_at (child_or_new n l t) ls = node_at n (l # ls)"
      using False by (simp add: child_or_new_def node_at_leaf split: option.splits)
    finally show ?thesis using False by (simp only: idx last_ConsR [OF False])
  qed
qed simp_all

section \<open>Rejection of incomplete entries\<close>

text \<open>
  Claim C2. \<open>is_valid\<close> holds exactly when region, postcode, city and street are all
  present. When it does not hold, \<open>add_child\<close> raises \<open>ValueError\<close> before anything
  else: the graph is the one it was called with and \<open>_add_child\<close> was never called.
  \<open>ValueError\<close> is raised for such entries only; on a graph that has the country child,
  no other exception is raised either, so the call raises exactly when the entry is
  incomplete.
\<close>

theorem add_child_rejects_incomplete:
  "(is_valid e \<longleftrightarrow>
      region e \<noteq> None \<and> postcode e \<noteq> None \<and> city e \<noteq> None \<and> street e \<noteq> None) \<and>
   (\<not> is_valid e \<longrightarrow>
      add_child gr e =
        (Raised ValueError, \<lparr>self = gr, cur_node = None, visited = [], calls = []\<rparr>)) \<and>
   (fst (add_child gr e) = Raised ValueError \<longleftrightarrow> \<not> is_valid e) \<and>
   (fmlookup (children (root gr)) country_label \<noteq> None \<longrightarrow>
      ((\<exists>err. fst (add_child gr e) = Raised err) \<longleftrightarrow> \<not> is_valid e))"
proof (intro conjI impI)
  show "is_valid e \<longleftrightarrow>
      region e \<noteq> None \<and> postcode e \<noteq> None \<and> city e \<noteq> None \<and> street e \<noteq> None"
    by (simp add: is_valid_def)
next
  assume "\<not> is_valid e"
  then show "add_child gr e =
      (Raised ValueError, \<lparr>self = gr, cur_node = None, visited = [], calls = []\<rparr>)"
    by (rule add_child_invalid)
next
  show "fst (add_child gr e) = Raised ValueError \<longleftrightarrow> \<not> is_valid e"
  proof (cases "is_valid e")
    case False
    then show ?thesis by (simp add: add_child_invalid)
  next
    case True
    then show ?thesis
      by (cases "fmlookup (children (root gr)) country_label")
         (simp_all add: add_child_no_country add_child_closed)
  qed
next
  assume "fmlookup (children (root gr)) country_label \<noteq> None"
  then obtain c where c: "fmlookup (children (root gr)) country_label = Some c" by auto
  show "(\<exists>err. fst (add_child gr e) = Raised err) \<longleftrightarrow> \<not> is_valid e"
  proof (cases "is_valid e")
    case False
    then show ?thesis by (simp add: add_child_invalid)
  next
    case True
    with c show ?thesis by (simp add: add_child_closed)
  qed
qed

theorem add_child_rejects_incomplete_witness:
  "\<not> is_valid entry_no_city \<and>
   fmlookup (children (root initial_graph)) country_label \<noteq> None \<and>
   add_child initial_graph entry_no_city =
     (Raised ValueError,
      \<lparr>self = initial_graph, cur_node = None, visited = [], calls = []\<rparr>) \<and>
   (\<exists>err. fst (add_child initial_graph entry_no_city) = Raised err)"
proof -
  have h1: "\<not> is_valid entry_no_city"
    by (simp add: is_valid_def entry_no_city_def)
  have h2: "fmlookup (children (root initial_graph)) country_label \<noteq> None"
    by (simp add: initial_graph_def)
  from h1 h2 add_child_rejects_incomplete [of entry_no_city initial_graph]
  show ?thesis by blast
qed

section \<open>The four required levels\<close>

text \<open>
  Claim C3. For an entry that passes the check, on a graph that has the country child,
  the first four calls of \<open>_add_child\<close> are for region, city, postcode and street, each
  with the entry's field as label and the level's type. None of the four steps can
  fail: the loop body for these levels continues whenever \<open>cur_node\<close> is set, the
  labels are not \<open>None\<close>, the call as a whole returns, and the node of the street is in
  the tree afterwards.
\<close>

theorem add_child_required_levels:
  assumes "is_valid e" and "fmlookup (children (root gr)) country_label \<noteq> None"
  shows "fst (add_child gr e) = Returned \<and>
         take 4 (calls (snd (add_child gr e))) =
           [(region e, REGION), (city e, CITY), (postcode e, POSTCODE), (street e, STREET)] \<and>
         None \<notin> set [region e, city e, postcode e, street e] \<and>
         (\<forall>s nt. nt \<in> {REGION, CITY, POSTCODE, STREET} \<and> cur_node s \<noteq> None \<longrightarrow>
                 fst (loop_body e nt s) = Continue) \<and>
         node_at (root (graph_after (add_child gr e)))
           [country_label, region e, city e, postcode e, street e] \<noteq> None"
proof -
  from assms(2) obtain c where c: "fmlookup (children (root gr)) country_label = Some c"
    by auto
  note closed = add_child_closed [OF assms(1) c]
  have 1: "fst (add_child gr e) = Returned"
    by (simp add: closed)
  have 2: "take 4 (calls (snd (add_child gr e))) =
      [(region e, REGION), (city e, CITY), (postcode e, POSTCODE), (street e, STREET)]"
    by (simp add: closed entry_labels_def NodeType_members_def)
  have 3: "None \<notin> set [region e, city e, postcode e, street e]"
    using assms(1) by (auto simp: is_valid_def)
  have 4: "\<forall>s nt. nt \<in> {REGION, CITY, POSTCODE, STREET} \<and> cur_node s \<noteq> None \<longrightarrow>
      fst (loop_body e nt s) = Continue"
    by (auto simp: loop_body_def call_add_child_def)
  have 5: "node_at (root (graph_after (add_child gr e)))
      [country_label, region e, city e, postcode e, street e] \<noteq> None"
    using c by (simp add: graph_after_def closed entry_labels_def NodeType_members_def)
  from 1 2 3 4 5 show ?thesis by blast
qed

theorem add_child_required_levels_witness:
  "is_valid entry_100 \<and>
   fmlookup (children (root initial_graph)) country_label \<noteq> None \<and>
   fst (add_child initial_graph entry_100) = Returned \<and>
   take 4 (calls (snd (add_child initial_graph entry_100))) =
     [(region entry_100, REGION), (city entry_100, CITY), (postcode entry_100, POSTCODE),
      (street entry_100, STREET)]"
proof -
  have h1: "is_valid entry_100"
    by (simp add: is_valid_def entry_100_def)
  have h2: "fmlookup (children (root initial_graph)) country_label \<noteq> None"
    by (simp add: initial_graph_def)
  from h1 h2 add_child_required_levels [OF h1 h2]
  show ?thesis by blast
qed

section \<open>The walk is bounded\<close>

text \<open>
  Claim C8. For every graph and every entry, complete or not, the call ends: it returns
  or raises (\<open>add_child\<close> is a function defined by recursion over the eight members of
  the enum, and is total). The levels that the loop body was entered with are an initial
  segment of the eight members in their order, so each is visited at most once and the
  values only increase; the calls of \<open>_add_child\<close> are for strictly increasing levels
  and there are at most eight of them.
\<close>

theorem add_child_bounded_walk:
  "fst (add_child gr e) \<in> {Returned, Raised ValueError, Raised KeyError} \<and>
   visited (snd (add_child gr e)) =
     take (length (visited (snd (add_child gr e)))) NodeType_members \<and>
   sorted_wrt (<) (map NodeType_value (visited (snd (add_child gr e)))) \<and>
   sorted_wrt (<) (map (NodeType_value \<circ> snd) (calls (snd (add_child gr e)))) \<and>
   length (calls (snd (add_child gr e))) \<le> length NodeType_members \<and>
   length NodeType_members = 8"
proof (cases "is_valid e")
  case False
  then show ?thesis by (simp add: add_child_invalid NodeType_members_def)
next
  case True
  show ?thesis
  proof (cases "fmlookup (children (root gr)) country_label")
    case None
    with True show ?thesis by (simp add: add_child_no_country NodeType_members_def)
  next
    case (Some c)
    show ?thesis
      by (simp add: add_child_closed [OF True Some] NodeType_members_def entry_labels_def)
  qed
qed

theorem add_child_bounded_walk_witness:
  "fst (add_child initial_graph entry_200) = Returned \<and>
   visited (snd (add_child initial_graph entry_200)) = NodeType_members \<and>
   length (calls (snd (add_child initial_graph entry_200))) = 6"
proof -
  have v: "is_valid entry_200"
    by (simp add: is_valid_def entry_200_def)
  have c: "fmlookup (children (root initial_graph)) country_label =
      Some (GeoNode country_label COUNTRY fmempty)"
    by (simp add: initial_graph_def)
  have f: "number entry_200 \<noteq> None" "unit entry_200 \<noteq> None"
    by (simp_all add: entry_200_def)
  have l: "length (visited (snd (add_child initial_graph entry_200))) = 8"
    using f by (simp add: add_child_closed [OF v c] NodeType_members_def)
  have n: "length (calls (snd (add_child initial_graph entry_200))) = 6"
    using f by (simp add: add_child_closed [OF v c] NodeType_members_def entry_labels_def)
  have r: "fst (add_child initial_graph entry_200) \<noteq> Raised ValueError \<and>
      fst (add_child initial_graph entry_200) \<noteq> Raised KeyError"
    by (simp add: add_child_closed [OF v c])
  from add_child_bounded_walk [of initial_graph entry_200] l n r
  show ?thesis by auto
qed

section \<open>Nothing is removed\<close>

text \<open>
  Claim C9. Whatever the graph and the entry, and whether the call returns or raises:
  a node that can be reached from the root before the call can be reached by the same
  keys after it, has the same label and the same type, and every key of its children
  dict is still a key of it. (Applied to the reference of a child, this says that the
  child itself is kept.)
\<close>

theorem add_child_monotone:
  assumes "node_at (root gr) p = Some n"
  shows "\<exists>n'. node_at (root (graph_after (add_child gr e))) p = Some n' \<and>
              label n' = label n \<and> node_type n' = node_type n \<and>
              fmdom (children n) |\<subseteq>| fmdom (children n')"
proof (cases "is_valid e \<and> fmlookup (children (root gr)) country_label \<noteq> None")
  case True
  then show ?thesis
    using node_at_ins_mono [OF assms]
    by (simp add: graph_after_add_child)
next
  case False
  then have "graph_after (add_child gr e) = gr"
    by (auto simp: graph_after_add_child)
  with assms show ?thesis by simp
qed

theorem add_child_monotone_witness:
  "node_at (root initial_graph) [country_label] =
     Some (GeoNode country_label COUNTRY fmempty) \<and>
   (\<exists>n'. node_at (root (graph_after (add_child initial_graph entry_100))) [country_label] =
            Some n' \<and>
          label n' = country_label \<and> node_type n' = COUNTRY)"
proof -
  have h: "node_at (root initial_graph) [country_label] =
      Some (GeoNode country_label COUNTRY fmempty)"
    by (simp add: initial_graph_def)
  from add_child_monotone [OF h, of entry_100] h
  show ?thesis by auto
qed

section \<open>Order of insertion\<close>

text \<open>
  Claim C10. Two calls of \<open>add_child\<close> leave the same tree in either order: the trees
  are equal as values, and in a tree a children dict is a finite map, so equality does
  not look at the order in which children were stored. This holds for every graph and
  every two entries; for complete entries on a graph with the country child, all four
  calls return.
\<close>

theorem add_child_commute:
  "add_children gr [e1, e2] = add_children gr [e2, e1] \<and>
   (is_valid e1 \<and> is_valid e2 \<and> fmlookup (children (root gr)) country_label \<noteq> None \<longrightarrow>
      fst (add_child gr e1) = Returned \<and>
      fst (add_child (graph_after (add_child gr e1)) e2) = Returned \<and>
      fst (add_child gr e2) = Returned \<and>
      fst (add_child (graph_after (add_child gr e2)) e1) = Returned)"
proof (intro conjI impI)
  show "add_children gr [e1, e2] = add_children gr [e2, e1]"
  proof (cases "fmlookup (children (root gr)) country_label")
    case None
    then show ?thesis by (simp add: graph_after_add_child)
  next
    case (Some c)
    then show ?thesis
      by (cases "is_valid e1"; cases "is_valid e2")
         (simp_all add: graph_after_add_child country_kept ins_commute)
  qed
next
  assume a: "is_valid e1 \<and> is_valid e2 \<and> fmlookup (children (root gr)) country_label \<noteq> None"
  then obtain c where c: "fmlookup (children (root gr)) country_label = Some c" by auto
  have k: "\<And>e. is_valid e \<Longrightarrow>
      fmlookup (children (root (graph_after (add_child gr e)))) country_label \<noteq> None"
    using c by (simp add: graph_after_add_child country_kept)
  have r: "\<And>gr' e. is_valid e \<Longrightarrow> fmlookup (children (root gr')) country_label \<noteq> None \<Longrightarrow>
      fst (add_child gr' e) = Returned"
    by (auto simp: add_child_closed)
  from a show "fst (add_child gr e1) = Returned" by (simp add: r)
  from a show "fst (add_child gr e2) = Returned" by (simp add: r)
  from a show "fst (add_child (graph_after (add_child gr e1)) e2) = Returned"
    by (simp add: r k)
  from a show "fst (add_child (graph_after (add_child gr e2)) e1) = Returned"
    by (simp add: r k)
qed

theorem add_child_commute_witness:
  "is_valid entry_100 \<and> is_valid entry_200 \<and>
   fmlookup (children (root initial_graph)) country_label \<noteq> None \<and>
   add_children initial_graph [entry_100, entry_200] =
     add_children initial_graph [entry_200, entry_100] \<and>
   fst (add_child (graph_after (add_child initial_graph entry_100)) entry_200) = Returned"
proof -
  have h1: "is_valid entry_100"
    by (simp add: is_valid_def entry_100_def)
  have h2: "is_valid entry_200"
    by (simp add: is_valid_def entry_200_def)
  have h3: "fmlookup (children (root initial_graph)) country_label \<noteq> None"
    by (simp add: initial_graph_def)
  from h1 h2 h3 add_child_commute [of initial_graph entry_100 entry_200]
  show ?thesis by blast
qed

section \<open>One node per shared level\<close>

lemma add_child_priv_hit:
  "fmlookup (children parent) l = Some c \<Longrightarrow> add_child_priv parent l t = (parent, c)"
  by (simp add: add_child_priv_def)

lemma single_chain_at_most: "single_chain n ch \<Longrightarrow> at_most_chain n ch"
  by (induction n ch rule: single_chain.induct) (auto split: option.splits)

lemma at_most_chain_leaf: "at_most_chain (GeoNode l t fmempty) ch"
  by (cases ch) auto

lemma at_most_chain_child_or_new:
  "at_most_chain n ((l, t) # ch) \<Longrightarrow>
   label (child_or_new n l t) = l \<and> node_type (child_or_new n l t) = t \<and>
   at_most_chain (child_or_new n l t) ch"
  by (cases "fmlookup (children n) l") (simp_all add: child_or_new_def at_most_chain_leaf)

lemma ins_single_chain:
  "length ls = length ts \<Longrightarrow> at_most_chain n (zip ls ts) \<Longrightarrow>
   single_chain (ins (ts @ ts') (ls @ ls') n) (zip ls ts)"
proof (induction ls ts arbitrary: n rule: list_induct2)
  case Nil
  then show ?case by simp
next
  case (Cons l ls t ts)
  from Cons.prems have am: "at_most_chain n ((l, t) # zip ls ts)" by simp
  note con = at_most_chain_child_or_new [OF am]
  from am have "fmdom (children n) |\<subseteq>| {|l|}" by simp
  then have dom: "finsert l (fmdom (children n)) = {|l|}" by auto
  from Cons.IH [of "child_or_new n l t"] con dom show ?case by simp
qed

lemma entry_labels_split:
  "entry_labels e =
     [region e, city e, postcode e, street e] @ drop 4 (entry_labels e)"
  by (simp add: entry_labels_def)

lemma add_child_single_chain:
  assumes "is_valid e"
    and "fmlookup (children (root gr)) country_label = Some cn"
    and "at_most_chain cn
           [(region e, REGION), (city e, CITY), (postcode e, POSTCODE), (street e, STREET)]"
  shows "\<exists>cn'. fmlookup (children (root (graph_after (add_child gr e)))) country_label = Some cn' \<and>
           single_chain cn'
             [(region e, REGION), (city e, CITY), (postcode e, POSTCODE), (street e, STREET)]"
proof -
  have ts: "[REGION, CITY, POSTCODE, STREET] @ [NUMBER, UNIT] = drop 2 NodeType_members"
    by (simp add: NodeType_members_def)
  have zp: "zip [region e, city e, postcode e, street e] [REGION, CITY, POSTCODE, STREET] =
      [(region e, REGION), (city e, CITY), (postcode e, POSTCODE), (street e, STREET)]"
    by simp
  have "single_chain
      (ins ([REGION, CITY, POSTCODE, STREET] @ [NUMBER, UNIT])
           ([region e, city e, postcode e, street e] @ drop 4 (entry_labels e)) cn)
      (zip [region e, city e, postcode e, street e] [REGION, CITY, POSTCODE, STREET])"
  proof (rule ins_single_chain)
    show "length [region e, city e, postcode e, street e] =
        length [REGION, CITY, POSTCODE, STREET]"
      by simp
    show "at_most_chain cn
        (zip [region e, city e, postcode e, street e] [REGION, CITY, POSTCODE, STREET])"
      by (simp only: zp assms(3))
  qed
  then have "single_chain (ins (drop 2 NodeType_members) (entry_labels e) cn)
      [(region e, REGION), (city e, CITY), (postcode e, POSTCODE), (street e, STREET)]"
    by (simp only: ts zp entry_labels_split [symmetric])
  moreover have "fmlookup (children (root (graph_after (add_child gr e)))) country_label =
      Some (ins (drop 2 NodeType_members) (entry_labels e) cn)"
    using assms(1,2)
    by (simp add: graph_after_add_child NodeType_members_def child_or_new_def)
  ultimately show ?thesis by blast
qed

lemma add_children_single_chain:
  assumes "\<forall>e \<in> set es. is_valid e \<and> region e = r \<and> city e = c \<and> postcode e = p \<and> street e = s"
    and "fmlookup (children (root gr)) country_label = Some cn"
    and "single_chain cn [(r, REGION), (c, CITY), (p, POSTCODE), (s, STREET)]"
  shows "\<exists>cn'. fmlookup (children (root (add_children gr es))) country_label = Some cn' \<and>
           single_chain cn' [(r, REGION), (c, CITY), (p, POSTCODE), (s, STREET)]"
  using assms
proof (induction es arbitrary: gr cn)
  case Nil
  then show ?case by simp
next
  case (Cons e es)
  from Cons.prems(1) have e: "is_valid e" "region e = r" "city e = c" "postcode e = p"
    "street e = s" by simp_all
  from Cons.prems(3) have "at_most_chain cn
      [(region e, REGION), (city e, CITY), (postcode e, POSTCODE), (street e, STREET)]"
    by (simp only: e single_chain_at_most)
  from add_child_single_chain [OF e(1) Cons.prems(2) this]
  obtain cn1 where cn1:
    "fmlookup (children (root (graph_after (add_child gr e)))) country_label = Some cn1"
    "single_chain cn1 [(r, REGION), (c, CITY), (p, POSTCODE), (s, STREET)]"
    by (auto simp only: e)
  from Cons.prems(1) have rest:
    "\<forall>e \<in> set es. is_valid e \<and> region e = r \<and> city e = c \<and> postcode e = p \<and> street e = s"
    by simp
  from Cons.IH [OF rest cn1] show ?case by simp
qed

lemma add_child_twice:
  "graph_after (add_child (graph_after (add_child gr e)) e) = graph_after (add_child gr e)"
  by (cases "fmlookup (children (root gr)) country_label"; cases "is_valid e")
     (simp_all add: graph_after_add_child country_kept ins_idem)

text \<open>
  Claim C1. \<open>_add_child\<close> returns the child that is already stored under the label and
  leaves the parent as it is. Calling \<open>add_child\<close> twice with the same entry leaves the
  same tree as calling it once, for every graph and every entry (siblings with the same
  label cannot exist: the children of a node are a dict keyed by label); for a complete
  entry on a graph with the country child both calls return. After one or more complete
  entries with the same region, city, postcode and street have been added to a graph
  whose country node had no children, the country has exactly one child, the region
  node, which has exactly one child, the city node, and so on down to the street node,
  each with its label and type.
\<close>

theorem add_child_dedup:
  "(\<forall>parent l t ch. fmlookup (children parent) l = Some ch \<longrightarrow>
      add_child_priv parent l t = (parent, ch)) \<and>
   add_children gr [e, e] = add_children gr [e] \<and>
   (is_valid e \<and> fmlookup (children (root gr)) country_label \<noteq> None \<longrightarrow>
      fst (add_child gr e) = Returned \<and>
      fst (add_child (graph_after (add_child gr e)) e) = Returned) \<and>
   (es \<noteq> [] \<and>
    (\<forall>e' \<in> set es. is_valid e' \<and> region e' = r \<and> city e' = c \<and> postcode e' = p \<and>
                    street e' = s) \<and>
    fmlookup (children (root gr0)) country_label = Some cn \<and> children cn = fmempty \<longrightarrow>
    (\<exists>cn'. fmlookup (children (root (add_children gr0 es))) country_label = Some cn' \<and>
            single_chain cn' [(r, REGION), (c, CITY), (p, POSTCODE), (s, STREET)]))"
proof (intro conjI impI allI)
  fix parent l t ch
  assume "fmlookup (children parent) l = Some ch"
  then show "add_child_priv parent l t = (parent, ch)"
    by (rule add_child_priv_hit)
next
  show "add_children gr [e, e] = add_children gr [e]"
    by (simp add: add_child_twice)
next
  assume a: "is_valid e \<and> fmlookup (children (root gr)) country_label \<noteq> None"
  then obtain c0 where c0: "fmlookup (children (root gr)) country_label = Some c0" by auto
  from a c0 show "fst (add_child gr e) = Returned"
    by (simp add: add_child_closed)
  from a c0 have "fmlookup (children (root (graph_after (add_child gr e)))) country_label \<noteq> None"
    by (simp add: graph_after_add_child country_kept)
  with a show "fst (add_child (graph_after (add_child gr e)) e) = Returned"
    by (auto simp: add_child_closed)
next
  assume a: "es \<noteq> [] \<and>
    (\<forall>e' \<in> set es. is_valid e' \<and> region e' = r \<and> city e' = c \<and> postcode e' = p \<and>
                    street e' = s) \<and>
    fmlookup (children (root gr0)) country_label = Some cn \<and> children cn = fmempty"
  then obtain e1 es1 where es: "es = e1 # es1" by (cases es) auto
  with a have e1: "is_valid e1" "region e1 = r" "city e1 = c" "postcode e1 = p" "street e1 = s"
    by simp_all
  from a have "at_most_chain cn
      [(region e1, REGION), (city e1, CITY), (postcode e1, POSTCODE), (street e1, STREET)]"
    by simp
  with a e1(1) obtain cn1 where cn1:
    "fmlookup (children (root (graph_after (add_child gr0 e1)))) country_label = Some cn1"
    "single_chain cn1 [(r, REGION), (c, CITY), (p, POSTCODE), (s, STREET)]"
    using add_child_single_chain [of e1 gr0 cn] by (auto simp only: e1)
  from a es have rest:
    "\<forall>e' \<in> set es1. is_valid e' \<and> region e' = r \<and> city e' = c \<and> postcode e' = p \<and>
                    street e' = s"
    by simp
  from add_children_single_chain [OF rest cn1]
  show "\<exists>cn'. fmlookup (children (root (add_children gr0 es))) country_label = Some cn' \<and>
            single_chain cn' [(r, REGION), (c, CITY), (p, POSTCODE), (s, STREET)]"
    by (simp add: es)
qed

theorem add_child_dedup_witness:
  "is_valid entry_100 \<and>
   fmlookup (children (root initial_graph)) country_label \<noteq> None \<and>
   add_children initial_graph [entry_100, entry_100] = add_children initial_graph [entry_100] \<and>
   fst (add_child (graph_after (add_child initial_graph entry_100)) entry_100) = Returned \<and>
   (\<exists>cn'. fmlookup (children (root (add_children initial_graph [entry_100, entry_200])))
             country_label = Some cn' \<and>
           single_chain cn'
             [(Some ''CA'', REGION), (Some ''San Diego'', CITY), (Some ''92101'', POSTCODE),
              (Some ''Main St'', STREET)])"
proof -
  have h1: "is_valid entry_100"
    by (simp add: is_valid_def entry_100_def)
  have h2: "fmlookup (children (root initial_graph)) country_label \<noteq> None"
    by (simp add: initial_graph_def)
  have h3: "[entry_100, entry_200] \<noteq> [] \<and>
    (\<forall>e' \<in> set [entry_100, entry_200]. is_valid e' \<and> region e' = Some ''CA'' \<and>
        city e' = Some ''San Diego'' \<and> postcode e' = Some ''92101'' \<and>
        street e' = Some ''Main St'') \<and>
    fmlookup (children (root initial_graph)) country_label =
      Some (GeoNode country_label COUNTRY fmempty) \<and>
    children (GeoNode country_label COUNTRY fmempty) = fmempty"
    by (simp add: is_valid_def entry_100_def entry_200_def initial_graph_def)
  from h1 h2 h3
    add_child_dedup [of initial_graph entry_100 "[entry_100, entry_200]" "Some ''CA''"
      "Some ''San Diego''" "Some ''92101''" "Some ''Main St''" initial_graph
      "GeoNode country_label COUNTRY fmempty"]
  show ?thesis by blast
qed

section \<open>Levels of parents and children\<close>

lemma levels_ok_iff:
  "levels_ok n \<longleftrightarrow>
     (\<forall>k ch. fmlookup (children n) k = Some ch \<longrightarrow>
        NodeType_value (node_type ch) = Suc (NodeType_value (node_type n)) \<and> levels_ok ch)"
  by (cases n) (auto simp: fmlookup_ran'_iff)

lemma levels_ok_child_or_new:
  assumes "levels_ok n" and "NodeType_value t = Suc (NodeType_value (node_type n))"
  shows "levels_ok (child_or_new n l t) \<and>
         NodeType_value (node_type (child_or_new n l t)) = NodeType_value t"
proof (cases "fmlookup (children n) l")
  case None
  then show ?thesis by (auto simp: child_or_new_def fmlookup_ran'_iff)
next
  case (Some ch)
  with assms levels_ok_iff [of n] show ?thesis by (simp add: child_or_new_def)
qed

lemma levels_ok_ins:
  "levels_ok n \<Longrightarrow> consecutive (NodeType_value (node_type n)) ts \<Longrightarrow> levels_ok (ins ts ls n)"
proof (induction ts ls n rule: ins.induct)
  case (1 t ts l ls n)
  from "1.prems" have t: "NodeType_value t = Suc (NodeType_value (node_type n))"
    and cons: "consecutive (Suc (NodeType_value (node_type n))) ts"
    by simp_all
  note con = levels_ok_child_or_new [OF "1.prems"(1) t, of l]
  from con cons t have "consecutive (NodeType_value (node_type (child_or_new n l t))) ts"
    by simp
  with "1.IH" con have sub: "levels_ok (ins ts ls (child_or_new n l t))" by simp
  have ty: "NodeType_value (node_type (ins ts ls (child_or_new n l t))) =
      Suc (NodeType_value (node_type n))"
    using con t by simp
  show ?case
    unfolding levels_ok_iff [of "ins (t # ts) (l # ls) n"]
  proof (intro allI impI)
    fix k ch
    assume "fmlookup (children (ins (t # ts) (l # ls) n)) k = Some ch"
    then have "ch = ins ts ls (child_or_new n l t) \<or> fmlookup (children n) k = Some ch"
      by (auto split: if_splits)
    then show "NodeType_value (node_type ch) =
        Suc (NodeType_value (node_type (ins (t # ts) (l # ls) n))) \<and> levels_ok ch"
    proof
      assume "ch = ins ts ls (child_or_new n l t)"
      with sub ty show ?thesis by simp
    next
      assume "fmlookup (children n) k = Some ch"
      with "1.prems"(1) levels_ok_iff [of n] show ?thesis by simp
    qed
  qed
qed simp_all

lemma consecutive_members: "consecutive 0 (tl NodeType_members)"
  by (simp add: NodeType_members_def)

lemma hierarchy_inv_add_child:
  assumes "hierarchy_inv gr"
  shows "hierarchy_inv (graph_after (add_child gr e))"
proof (cases "is_valid e \<and> fmlookup (children (root gr)) country_label \<noteq> None")
  case False
  then have "graph_after (add_child gr e) = gr"
    by (auto simp: graph_after_add_child)
  with assms show ?thesis by simp
next
  case True
  then obtain cn where cn: "fmlookup (children (root gr)) country_label = Some cn" by auto
  let ?r = "ins (tl NodeType_members) (country_label # entry_labels e) (root gr)"
  from True have ga: "graph_after (add_child gr e) = \<lparr>root = ?r\<rparr>"
    by (simp add: graph_after_add_child)
  from assms have pl: "node_type (root gr) = PLANET"
    and sc: "single_country_child (root gr)"
    and lv: "levels_ok (root gr)"
    by (simp_all add: hierarchy_inv_def)
  have 1: "node_type ?r = PLANET" using pl by simp
  from lv pl consecutive_members have 2: "levels_ok ?r"
    by (intro levels_ok_ins) simp_all
  from sc have dom: "fmdom (children ?r) = {|country_label|}"
    by (auto simp: single_country_child_def NodeType_members_def)
  from sc cn have "node_type cn = COUNTRY"
    by (simp add: single_country_child_def)
  with cn have 3: "case fmlookup (children ?r) country_label of
      None \<Rightarrow> False | Some ch \<Rightarrow> node_type ch = COUNTRY"
    by (simp add: NodeType_members_def child_or_new_def)
  from 1 2 3 dom show ?thesis
    by (simp only: ga hierarchy_inv_def single_country_child_def GeoGraph.simps simp_thms)
qed

lemma hierarchy_inv_add_children:
  "hierarchy_inv gr \<Longrightarrow> hierarchy_inv (add_children gr es)"
  by (induction es arbitrary: gr) (simp_all add: hierarchy_inv_add_child)

lemma hierarchy_inv_initial: "hierarchy_inv initial_graph"
  by (auto simp: hierarchy_inv_def initial_graph_def single_country_child_def
      fmlookup_ran'_iff split: if_splits)

text \<open>
  Claim C6. The graph that the main script starts from has a \<open>PLANET\<close> root whose only
  child is the \<open>COUNTRY\<close> node, and in it every child is one level below its parent.
  After any sequence of calls of \<open>add_child\<close>, returning or raising, this is still so;
  and the same holds from any graph that has these properties.
\<close>

theorem add_children_level_order:
  "hierarchy_inv (add_children initial_graph es) \<and>
   (hierarchy_inv gr \<longrightarrow> hierarchy_inv (add_children gr es))"
  by (simp add: hierarchy_inv_add_children hierarchy_inv_initial)

theorem add_children_level_order_witness:
  "hierarchy_inv initial_graph \<and>
   hierarchy_inv (add_children initial_graph [entry_100, entry_no_city, entry_200])"
proof -
  have h: "hierarchy_inv initial_graph"
    by (auto simp: hierarchy_inv_def initial_graph_def single_country_child_def
        fmlookup_ran'_iff split: if_splits)
  from h add_children_level_order [of "[entry_100, entry_no_city, entry_200]" initial_graph]
  show ?thesis by blast
qed

section \<open>Entries without number or unit\<close>

lemma add_child_end_node:
  assumes "is_valid e" and "fmlookup (children (root gr)) country_label \<noteq> None"
  shows "node_at (root (graph_after (add_child gr e))) (country_label # entry_labels e) =
     Some (case node_at (root gr) (country_label # entry_labels e) of
             Some m \<Rightarrow> m
           | None \<Rightarrow> GeoNode (last (entry_labels e))
                      (NodeType_members ! (length (entry_labels e) + 1)) fmempty)"
proof -
  have len: "length (country_label # entry_labels e) \<le> length (tl NodeType_members)"
    by (simp add: entry_labels_def NodeType_members_def)
  have ne: "entry_labels e \<noteq> []"
    by (simp add: entry_labels_def)
  have idx: "tl NodeType_members ! (length (country_label # entry_labels e) - 1) =
      NodeType_members ! (length (entry_labels e) + 1)"
    by (simp add: NodeType_members_def)
  from node_at_ins_end [OF _ len, of "root gr"] ne assms show ?thesis
    by (simp only: graph_after_add_child idx GeoGraph.simps last_ConsR [OF ne] simp_thms
        if_True list.distinct not_False_eq_True)
qed

lemma add_child_deep_unchanged:
  assumes "length (entry_labels e) + 1 < length p"
  shows "node_at (root (graph_after (add_child gr e))) p = node_at (root gr) p"
  using assms by (simp add: graph_after_add_child node_at_ins_deep)

text \<open>
  Claim C4. Let the entry be complete and the graph have the country child. If the
  number is absent, the call returns after the four calls of \<open>_add_child\<close> for region,
  city, postcode and street; \<open>cur_node\<close> ends on the street node, which is the node
  that was there before the call, children included, or a new \<open>STREET\<close> node without
  children; and no reference longer than that of a street node resolves differently
  than before, so no \<open>NUMBER\<close> or \<open>UNIT\<close> node was created. If the number is present
  and the unit absent, the call returns after a fifth call for the number;
  \<open>cur_node\<close> ends on the number node, which is the one that was there before, or a
  new \<open>NUMBER\<close> node without children; and nothing below number nodes has changed, so
  no \<open>UNIT\<close> node was created.
\<close>

theorem add_child_early_exit:
  assumes "is_valid e" and "fmlookup (children (root gr)) country_label \<noteq> None"
  shows
    "(number e = None \<longrightarrow>
        fst (add_child gr e) = Returned \<and>
        calls (snd (add_child gr e)) =
          [(region e, REGION), (city e, CITY), (postcode e, POSTCODE), (street e, STREET)] \<and>
        cur_node (snd (add_child gr e)) =
          Some [country_label, region e, city e, postcode e, street e] \<and>
        node_at (root (graph_after (add_child gr e)))
            [country_label, region e, city e, postcode e, street e] =
          Some (case node_at (root gr) [country_label, region e, city e, postcode e, street e] of
                  Some m \<Rightarrow> m
                | None \<Rightarrow> GeoNode (street e) STREET fmempty) \<and>
        (\<forall>p. 5 < length p \<longrightarrow>
             node_at (root (graph_after (add_child gr e))) p = node_at (root gr) p)) \<and>
     (number e \<noteq> None \<and> unit e = None \<longrightarrow>
        fst (add_child gr e) = Returned \<and>
        calls (snd (add_child gr e)) =
          [(region e, REGION), (city e, CITY), (postcode e, POSTCODE), (street e, STREET),
           (number e, NUMBER)] \<and>
        cur_node (snd (add_child gr e)) =
          Some [country_label, region e, city e, postcode e, street e, number e] \<and>
        node_at (root (graph_after (add_child gr e)))
            [country_label, region e, city e, postcode e, street e, number e] =
          Some (case node_at (root gr)
                       [country_label, region e, city e, postcode e, street e, number e] of
                  Some m \<Rightarrow> m
                | None \<Rightarrow> GeoNode (number e) NUMBER fmempty) \<and>
        (\<forall>p. 6 < length p \<longrightarrow>
             node_at (root (graph_after (add_child gr e))) p = node_at (root gr) p))"
proof -
  from assms(2) obtain cn where cn: "fmlookup (children (root gr)) country_label = Some cn"
    by auto
  note closed = add_child_closed [OF assms(1) cn]
  note end_node = add_child_end_node [OF assms]
  show ?thesis
  proof (intro conjI impI allI)
    assume n: "number e = None"
    then have lab: "entry_labels e = [region e, city e, postcode e, street e]"
      by (simp add: entry_labels_def)
    show "fst (add_child gr e) = Returned"
      by (simp add: closed)
    show "calls (snd (add_child gr e)) =
        [(region e, REGION), (city e, CITY), (postcode e, POSTCODE), (street e, STREET)]"
      by (simp add: closed lab NodeType_members_def)
    show "cur_node (snd (add_child gr e)) =
        Some [country_label, region e, city e, postcode e, street e]"
      by (simp add: closed lab)
    show "node_at (root (graph_after (add_child gr e)))
          [country_label, region e, city e, postcode e, street e] =
        Some (case node_at (root gr) [country_label, region e, city e, postcode e, street e] of
                Some m \<Rightarrow> m
              | None \<Rightarrow> GeoNode (street e) STREET fmempty)"
    proof -
      have ty: "NodeType_members ! (length [region e, city e, postcode e, street e] + 1) = STREET"
        by (simp add: NodeType_members_def)
      have la: "last [region e, city e, postcode e, street e] = street e"
        by simp
      from end_node show ?thesis unfolding lab ty la .
    qed
    fix p :: node_ref
    assume "5 < length p"
    then show "node_at (root (graph_after (add_child gr e))) p = node_at (root gr) p"
      by (intro add_child_deep_unchanged) (simp add: lab)
  next
    assume n: "number e \<noteq> None \<and> unit e = None"
    then have lab: "entry_labels e = [region e, city e, postcode e, street e, number e]"
      by (simp add: entry_labels_def)
    show "fst (add_child gr e) = Returned"
      by (simp add: closed)
    show "calls (snd (add_child gr e)) =
        [(region e, REGION), (city e, CITY), (postcode e, POSTCODE), (street e, STREET),
         (number e, NUMBER)]"
      by (simp add: closed lab NodeType_members_def)
    show "cur_node (snd (add_child gr e)) =
        Some [country_label, region e, city e, postcode e, street e, number e]"
      by (simp add: closed lab)
    show "node_at (root (graph_after (add_child gr e)))
          [country_label, region e, city e, postcode e, street e, number e] =
        Some (case node_at (root gr)
                     [country_label, region e, city e, postcode e, street e, number e] of
                Some m \<Rightarrow> m
              | None \<Rightarrow> GeoNode (number e) NUMBER fmempty)"
    proof -
      have ty: "NodeType_members !
          (length [region e, city e, postcode e, street e, number e] + 1) = NUMBER"
        by (simp add: NodeType_members_def)
      have la: "last [region e, city e, postcode e, street e, number e] = number e"
        by simp
      from end_node show ?thesis unfolding lab ty la .
    qed
    fix p :: node_ref
    assume "6 < length p"
    then show "node_at (root (graph_after (add_child gr e))) p = node_at (root gr) p"
      by (intro add_child_deep_unchanged) (simp add: lab)
  qed
qed

theorem add_child_early_exit_witness:
  "is_valid entry_street_only \<and> number entry_street_only = None \<and>
   is_valid entry_100 \<and> number entry_100 \<noteq> None \<and> unit entry_100 = None \<and>
   fmlookup (children (root initial_graph)) country_label \<noteq> None \<and>
   fst (add_child initial_graph entry_street_only) = Returned \<and>
   node_at (root (graph_after (add_child initial_graph entry_street_only)))
       [country_label, Some ''CA'', Some ''San Diego'', Some ''92101'', Some ''Main St''] =
     Some (GeoNode (Some ''Main St'') STREET fmempty) \<and>
   fst (add_child initial_graph entry_100) = Returned \<and>
   node_at (root (graph_after (add_child initial_graph entry_100)))
       [country_label, Some ''CA'', Some ''San Diego'', Some ''92101'', Some ''Main St'',
        Some ''100''] =
     Some (GeoNode (Some ''100'') NUMBER fmempty)"
proof -
  have v1: "is_valid entry_street_only" and n1: "number entry_street_only = None"
    by (simp_all add: is_valid_def entry_street_only_def)
  have v2: "is_valid entry_100" and n2: "number entry_100 \<noteq> None \<and> unit entry_100 = None"
    by (simp_all add: is_valid_def entry_100_def)
  have s: "fmlookup (children (root initial_graph)) country_label \<noteq> None"
    by (simp add: initial_graph_def)
  have f1: "region entry_street_only = Some ''CA''" "city entry_street_only = Some ''San Diego''"
    "postcode entry_street_only = Some ''92101''" "street entry_street_only = Some ''Main St''"
    by (simp_all add: entry_street_only_def)
  have f2: "region entry_100 = Some ''CA''" "city entry_100 = Some ''San Diego''"
    "postcode entry_100 = Some ''92101''" "street entry_100 = Some ''Main St''"
    "number entry_100 = Some ''100''"
    by (simp_all add: entry_100_def)
  have b1: "node_at (root initial_graph)
      [country_label, Some ''CA'', Some ''San Diego'', Some ''92101'', Some ''Main St''] = None"
    by (simp add: initial_graph_def)
  have b2: "node_at (root initial_graph)
      [country_label, Some ''CA'', Some ''San Diego'', Some ''92101'', Some ''Main St'',
       Some ''100''] = None"
    by (simp add: initial_graph_def)
  from add_child_early_exit [OF v1 s] n1 f1 b1
  have a1: "fst (add_child initial_graph entry_street_only) = Returned \<and>
    node_at (root (graph_after (add_child initial_graph entry_street_only)))
       [country_label, Some ''CA'', Some ''San Diego'', Some ''92101'', Some ''Main St''] =
     Some (GeoNode (Some ''Main St'') STREET fmempty)"
    by simp
  from add_child_early_exit [OF v2 s] n2 f2 b2
  have a2: "fst (add_child initial_graph entry_100) = Returned \<and>
    node_at (root (graph_after (add_child initial_graph entry_100)))
       [country_label, Some ''CA'', Some ''San Diego'', Some ''92101'', Some ''Main St'',
        Some ''100''] =
     Some (GeoNode (Some ''100'') NUMBER fmempty)"
    by simp
  from v1 n1 v2 n2 s a1 a2 show ?thesis by blast
qed

section \<open>A root without the country child\<close>

text \<open>
  Claim C7, as the specification states it, fails on the main script: the exception
  raised for the missing country is caught by \<open>except Exception\<close> like any other, the
  entry is counted in \<open>num_incomplete\<close>, and the loop ends normally.
\<close>

theorem missing_country_counterexample:
  "is_valid entry_100 \<and>
   fmlookup (children (root unseeded_graph)) country_label = None \<and>
   from_properties properties_100 = Inr entry_100 \<and>
   main_loop \<lparr>g = unseeded_graph, num_incomplete = 0, num_processed = 0, lines = 100\<rparr>
       [Some properties_100] =
     Inr \<lparr>g = unseeded_graph, num_incomplete = 1, num_processed = 1, lines = 99\<rparr>"
proof -
  have v: "is_valid entry_100"
    by (simp add: is_valid_def entry_100_def)
  have c: "fmlookup (children (root unseeded_graph)) country_label = None"
    by (simp add: unseeded_graph_def)
  have p: "from_properties properties_100 = Inr entry_100"
    by (simp add: from_properties_contract properties_100_def entry_100_def strip_def
        isspace_def)
  have "main_loop \<lparr>g = unseeded_graph, num_incomplete = 0, num_processed = 0, lines = 100\<rparr>
       [Some properties_100] =
     Inr \<lparr>g = unseeded_graph, num_incomplete = 1, num_processed = 1, lines = 99\<rparr>"
    by (simp add: p add_child_no_country [OF v c])
  with v c p show ?thesis by blast
qed

text \<open>
  Claim C7, amended. On a graph whose root has no child under the country label,
  \<open>add_child\<close> with a complete entry raises \<open>KeyError\<close> in the \<open>COUNTRY\<close> step, before
  any call of \<open>_add_child\<close>, and the graph is unchanged. In the loop of the main script
  the exception is caught: the line is counted as processed and as incomplete, and the
  loop goes on with the next line.
\<close>

theorem missing_country_caught:
  assumes "is_valid e" and "fmlookup (children (root gr)) country_label = None"
  shows "add_child gr e =
           (Raised KeyError,
            \<lparr>self = gr, cur_node = Some [], visited = [PLANET, COUNTRY], calls = []\<rparr>) \<and>
         (lines st \<noteq> 0 \<and> g st = gr \<and> from_properties props = Inr e \<longrightarrow>
            main_loop st (Some props # rest) =
              main_loop (st\<lparr>lines := lines st - 1,
                            num_processed := num_processed st + 1,
                            num_incomplete := num_incomplete st + 1\<rparr>) rest)"
proof (intro conjI impI)
  show "add_child gr e =
      (Raised KeyError,
       \<lparr>self = gr, cur_node = Some [], visited = [PLANET, COUNTRY], calls = []\<rparr>)"
    by (rule add_child_no_country [OF assms])
next
  assume a: "lines st \<noteq> 0 \<and> g st = gr \<and> from_properties props = Inr e"
  then have "add_child (g st) e =
      (Raised KeyError,
       \<lparr>self = g st, cur_node = Some [], visited = [PLANET, COUNTRY], calls = []\<rparr>)"
    using add_child_no_country [OF assms] by simp
  with a show "main_loop st (Some props # rest) =
      main_loop (st\<lparr>lines := lines st - 1,
                    num_processed := num_processed st + 1,
                    num_incomplete := num_incomplete st + 1\<rparr>) rest"
    by (cases st) simp
qed

theorem missing_country_caught_witness:
  "is_valid entry_100 \<and>
   fmlookup (children (root unseeded_graph)) country_label = None \<and>
   from_properties properties_100 = Inr entry_100 \<and>
   fst (add_child unseeded_graph entry_100) = Raised KeyError \<and>
   graph_after (add_child unseeded_graph entry_100) = unseeded_graph \<and>
   main_loop \<lparr>g = unseeded_graph, num_incomplete = 0, num_processed = 0, lines = 100\<rparr>
       [Some properties_100, None] =
     main_loop \<lparr>g = unseeded_graph, num_incomplete = 1, num_processed = 1, lines = 99\<rparr>
       [None]"
proof -
  have v: "is_valid entry_100"
    by (simp add: is_valid_def entry_100_def)
  have c: "fmlookup (children (root unseeded_graph)) country_label = None"
    by (simp add: unseeded_graph_def)
  have p: "from_properties properties_100 = Inr entry_100"
    by (simp add: from_properties_contract properties_100_def entry_100_def strip_def
        isspace_def)
  from missing_country_caught [OF v c,
      of "\<lparr>g = unseeded_graph, num_incomplete = 0, num_processed = 0, lines = 100\<rparr>"
         properties_100 "[None]"] p
  have "fst (add_child unseeded_graph entry_100) = Raised KeyError \<and>
    graph_after (add_child unseeded_graph entry_100) = unseeded_graph \<and>
    main_loop \<lparr>g = unseeded_graph, num_incomplete = 0, num_processed = 0, lines = 100\<rparr>
       [Some properties_100, None] =
     main_loop \<lparr>g = unseeded_graph, num_incomplete = 1, num_processed = 1, lines = 99\<rparr>
       [None]"
    by (simp add: graph_after_def)
  with v c p show ?thesis by blast
qed

end
